theory Spec2Isabelle
  imports Main
begin

section \<open>JavaScript strings and numbers as the ISBN code uses them\<close>

text \<open>
  A JavaScript string is a sequence of UTF-16 code units and \<open>length\<close> counts them.
  A \<open>char\<close> of this development is one code unit in the range 0..255, so a \<open>string\<close>
  is a JavaScript string whose code units all lie in that range.

  The numbers of the checksum loops are small integers or \<open>NaN\<close> (what \<open>parseInt\<close>
  returns on a character that is no digit); every arithmetic operation propagates
  \<open>NaN\<close>.
\<close>

datatype jsnum = NaN | Num int

fun js_add :: "jsnum \<Rightarrow> jsnum \<Rightarrow> jsnum" where
  "js_add (Num a) (Num b) = Num (a + b)"
| "js_add _ _ = NaN"

fun js_sub :: "jsnum \<Rightarrow> jsnum \<Rightarrow> jsnum" where
  "js_sub (Num a) (Num b) = Num (a - b)"
| "js_sub _ _ = NaN"

fun js_mul :: "jsnum \<Rightarrow> jsnum \<Rightarrow> jsnum" where
  "js_mul (Num a) (Num b) = Num (a * b)"
| "js_mul _ _ = NaN"

text \<open>The operator \<open>%\<close>: the remainder takes the sign of the dividend; \<open>x % 0\<close> is \<open>NaN\<close>.\<close>

fun js_rem :: "jsnum \<Rightarrow> jsnum \<Rightarrow> jsnum" where
  "js_rem (Num a) (Num b) = (if b = 0 then NaN else Num (sgn a * (\<bar>a\<bar> mod \<bar>b\<bar>)))"
| "js_rem _ _ = NaN"

definition is_digit :: "char \<Rightarrow> bool" where
  "is_digit c = (48 \<le> (of_char c :: nat) \<and> (of_char c :: nat) \<le> 57)"

text \<open>\<open>parseInt\<close> of a one-character string: the digit's value, otherwise \<open>NaN\<close>.\<close>

definition parseInt_char :: "char \<Rightarrow> jsnum" where
  "parseInt_char c = (if is_digit c then Num (int (of_char c) - 48) else NaN)"

text \<open>
  \<open>parseInt(s[i])\<close>: an index beyond the string reads \<open>undefined\<close>, and
  \<open>parseInt(undefined)\<close> is \<open>NaN\<close>.
\<close>

definition parseInt_at :: "string \<Rightarrow> nat \<Rightarrow> jsnum" where
  "parseInt_at s i = (if i < length s then parseInt_char (s ! i) else NaN)"

fun nat_to_string :: "nat \<Rightarrow> string" where
  "nat_to_string n =
     (if n < 10 then [''0123456789'' ! n]
      else nat_to_string (n div 10) @ [''0123456789'' ! (n mod 10)])"

declare nat_to_string.simps [simp del]

text \<open>Number to string, as string concatenation and \<open>toString\<close> do it.\<close>

definition num_to_string :: "jsnum \<Rightarrow> string" where
  "num_to_string x =
     (case x of
        NaN \<Rightarrow> ''NaN''
      | Num k \<Rightarrow> if k < 0 then CHR ''-'' # nat_to_string (nat (- k)) else nat_to_string (nat k))"

text \<open>\<open>s.substring(a, b)\<close>: both indices are clamped to the length, and swapped if \<open>a > b\<close>.\<close>

definition substring :: "string \<Rightarrow> nat \<Rightarrow> nat \<Rightarrow> string" where
  "substring s a b = drop (min a b) (take (max a b) s)"

definition startsWith :: "string \<Rightarrow> string \<Rightarrow> bool" where
  "startsWith s p = (take (length p) s = p)"

section \<open>Cleaning\<close>

text \<open>
  The class \<open>\s\<close> of a regular expression, on the code units 0..255: tab, line feed,
  vertical tab, form feed, carriage return, space and the no-break space U+00A0.
\<close>

definition is_space :: "char \<Rightarrow> bool" where
  "is_space c = ((of_char c :: nat) \<in> {9, 10, 11, 12, 13, 32, 160})"

text \<open>\<open>isbn.replace(/[-\s]/g, '')\<close>, the same in \<open>database.js\<close>, \<open>server.js\<close> and \<open>api.js\<close>.\<close>

definition cleanISBN :: "string \<Rightarrow> string" where
  "cleanISBN isbn = filter (\<lambda>c. \<not> (c = CHR ''-'' \<or> is_space c)) isbn"

text \<open>The characters that cleaning keeps.\<close>

definition unstripped :: "char \<Rightarrow> bool" where
  "unstripped c = (\<not> (c = CHR ''-'' \<or> is_space c))"

definition sentinel :: string where
  "sentinel = ''6666666666666''"

section \<open>Conversions (\<open>database.js\<close>)\<close>

text \<open>The body of the loop \<open>sum += parseInt(partial[i]) * (i % 2 === 0 ? 1 : 3)\<close>;
  \<open>acc\<close> is the variable \<open>sum\<close>.\<close>

definition isbn13_step :: "string \<Rightarrow> nat \<Rightarrow> jsnum \<Rightarrow> jsnum" where
  "isbn13_step partial i acc =
     js_add acc (js_mul (parseInt_at partial i) (Num (if i mod 2 = 0 then 1 else 3)))"

definition isbn13_sum :: "string \<Rightarrow> jsnum" where
  "isbn13_sum partial = fold (isbn13_step partial) [0..<12] (Num 0)"

definition isbn13_checkDigit :: "string \<Rightarrow> jsnum" where
  "isbn13_checkDigit partial =
     js_rem (js_sub (Num 10) (js_rem (isbn13_sum partial) (Num 10))) (Num 10)"

text \<open>\<open>null\<close> is \<open>None\<close>. The guard \<open>!isbn10\<close> holds of the empty string.\<close>

definition convertISBN10ToISBN13 :: "string \<Rightarrow> string option" where
  "convertISBN10ToISBN13 isbn10 =
     (if isbn10 = [] \<or> length isbn10 \<noteq> 10 then None
      else
        let partial = ''978'' @ substring isbn10 0 9
        in Some (partial @ num_to_string (isbn13_checkDigit partial)))"

text \<open>The body of the loop \<open>sum += parseInt(partial[i]) * (10 - i)\<close>;
  \<open>acc\<close> is the variable \<open>sum\<close>.\<close>

definition isbn10_step :: "string \<Rightarrow> nat \<Rightarrow> jsnum \<Rightarrow> jsnum" where
  "isbn10_step partial i acc =
     js_add acc (js_mul (parseInt_at partial i) (Num (10 - int i)))"

definition isbn10_sum :: "string \<Rightarrow> jsnum" where
  "isbn10_sum partial = fold (isbn10_step partial) [0..<9] (Num 0)"

definition isbn10_checkDigit :: "string \<Rightarrow> jsnum" where
  "isbn10_checkDigit partial =
     js_rem (js_sub (Num 11) (js_rem (isbn10_sum partial) (Num 11))) (Num 11)"

definition isbn10_checkChar :: "string \<Rightarrow> string" where
  "isbn10_checkChar partial =
     (let checkDigit = isbn10_checkDigit partial
      in if checkDigit = Num 10 then ''X''
         else if checkDigit = Num 11 then ''0''
         else num_to_string checkDigit)"

definition convertISBN13ToISBN10 :: "string \<Rightarrow> string option" where
  "convertISBN13ToISBN10 isbn13 =
     (if isbn13 = [] \<or> length isbn13 \<noteq> 13 \<or> \<not> startsWith isbn13 ''978'' then None
      else
        let partial = substring isbn13 3 12
        in Some (partial @ isbn10_checkChar partial))"

text \<open>
  \<open>convertISBN13ToISBN10(convertISBN10ToISBN13(x))\<close>: the inner \<open>null\<close> is
  answered by \<open>null\<close> (the guard \<open>!isbn13\<close>).
\<close>

definition roundtrip10 :: "string \<Rightarrow> string option" where
  "roundtrip10 x =
     (case convertISBN10ToISBN13 x of
        None \<Rightarrow> None
      | Some isbn13 \<Rightarrow> convertISBN13ToISBN10 isbn13)"

section \<open>Normalisation\<close>

text \<open>\<open>BookDatabase.normalizeISBN\<close>; \<open>if (isbn13)\<close> holds of a non-empty string.\<close>

definition BookDatabase_normalizeISBN :: "string \<Rightarrow> string" where
  "BookDatabase_normalizeISBN isbn =
     (let clean = cleanISBN isbn
      in if clean = sentinel then clean
         else if length clean = 13 then clean
         else if length clean = 10 then
           (case convertISBN10ToISBN13 clean of
              Some isbn13 \<Rightarrow> if isbn13 \<noteq> [] then isbn13 else clean
            | None \<Rightarrow> clean)
         else clean)"

text \<open>\<open>ISBNServer.normalizeISBN\<close> computes the check digit in place, with the same loop.\<close>

definition ISBNServer_normalizeISBN :: "string \<Rightarrow> string" where
  "ISBNServer_normalizeISBN isbn =
     (let clean = cleanISBN isbn
      in if clean = sentinel then clean
         else if length clean = 13 then clean
         else if length clean = 10 then
           (let partial = ''978'' @ substring clean 0 9
            in partial @ num_to_string (isbn13_checkDigit partial))
         else clean)"

section \<open>Variants\<close>

text \<open>\<open>Set.add\<close> followed by \<open>Array.from\<close>: insertion order, no duplicate.\<close>

definition set_add :: "string list \<Rightarrow> string \<Rightarrow> string list" where
  "set_add variants v = (if v \<in> set variants then variants else variants @ [v])"

definition BookDatabase_getISBNVariants :: "string \<Rightarrow> string list" where
  "BookDatabase_getISBNVariants isbn =
     (let clean = cleanISBN isbn;
          variants = [clean];
          variants =
            (if length clean = 13 \<and> startsWith clean ''978'' then
               (case convertISBN13ToISBN10 clean of
                  Some isbn10 \<Rightarrow> if isbn10 \<noteq> [] then set_add variants isbn10 else variants
                | None \<Rightarrow> variants)
             else variants);
          variants =
            (if length clean = 10 then
               (case convertISBN10ToISBN13 clean of
                  Some isbn13 \<Rightarrow> if isbn13 \<noteq> [] then set_add variants isbn13 else variants
                | None \<Rightarrow> variants)
             else variants)
      in variants)"

text \<open>
  \<open>ISBNServer.getISBNVariants\<close> pushes \<open>clean.substring(3, 12)\<close> for an ISBN-13, and
  the normalised form for an ISBN-10.
\<close>

definition ISBNServer_getISBNVariants :: "string \<Rightarrow> string list" where
  "ISBNServer_getISBNVariants isbn =
     (let clean = cleanISBN isbn;
          variants = [clean];
          variants =
            (if length clean = 13 \<and> startsWith clean ''978''
             then variants @ [substring clean 3 12] else variants);
          variants =
            (if length clean = 10 then
               (let isbn13 = ISBNServer_normalizeISBN clean
                in if isbn13 \<noteq> clean then variants @ [isbn13] else variants)
             else variants)
      in variants)"

section \<open>Validation\<close>

text \<open>
  The error of a failed validation is a message:
  \<open>InvalidLength\<close> is "L'ISBN doit contenir 10 ou 13 chiffres",
  \<open>InvalidFormat10\<close> is "Format ISBN-10 invalide",
  \<open>InvalidFormat13\<close> is "Format ISBN-13 invalide",
  \<open>InvalidPrefix\<close> is "ISBN-13 doit commencer par 978 ou 979".
  \<open>Valid clean\<close> is \<open>{ valid: true, isbn: clean }\<close>.
\<close>

datatype validation_error = InvalidLength | InvalidFormat10 | InvalidFormat13 | InvalidPrefix

datatype validation = Valid string | Invalid validation_error

text \<open>\<open>/^\d{9}[\dX]$/\<close> and \<open>/^\d{13}$/\<close>.\<close>

definition matches_isbn10 :: "string \<Rightarrow> bool" where
  "matches_isbn10 s =
     (length s = 10 \<and> list_all is_digit (take 9 s) \<and> (is_digit (s ! 9) \<or> s ! 9 = CHR ''X''))"

definition matches_isbn13 :: "string \<Rightarrow> bool" where
  "matches_isbn13 s = (length s = 13 \<and> list_all is_digit s)"

text \<open>\<open>BookAPIService.validateISBN\<close> (\<open>api.js\<close>), the validator of the client.\<close>

definition BookAPIService_validateISBN :: "string \<Rightarrow> validation" where
  "BookAPIService_validateISBN isbn =
     (let clean = cleanISBN isbn
      in if clean = sentinel then Valid clean
         else if length clean \<noteq> 10 \<and> length clean \<noteq> 13 then Invalid InvalidLength
         else if length clean = 10 then
           (if \<not> matches_isbn10 clean then Invalid InvalidFormat10 else Valid clean)
         else if \<not> matches_isbn13 clean then Invalid InvalidFormat13
         else if \<not> startsWith clean ''978'' \<and> \<not> startsWith clean ''979'' then Invalid InvalidPrefix
         else Valid clean)"

text \<open>\<open>ISBNServer.validateISBN\<close> (\<open>server.js\<close>).\<close>

definition ISBNServer_validateISBN :: "string \<Rightarrow> validation" where
  "ISBNServer_validateISBN isbn =
     (let clean = cleanISBN isbn
      in if length clean \<noteq> 10 \<and> length clean \<noteq> 13 then Invalid InvalidLength
         else if length clean = 13 \<and> \<not> startsWith clean ''978'' \<and> \<not> startsWith clean ''979''
           then Invalid InvalidPrefix
         else Valid clean)"

section \<open>The check digit of the specification\<close>

text \<open>
  The EAN-13 check digit as the specification words it (section 4.3): the sum over the
  indices \<open>i\<close> in \<open>[0, 12)\<close> of \<open>digit[i] * (1 if i even else 3)\<close>, then
  \<open>(10 - (sum mod 10)) mod 10\<close>. It is stated on natural numbers, apart from the
  code, to compare the code with.
\<close>

definition digit_value :: "char \<Rightarrow> nat" where
  "digit_value c = of_char c - 48"

definition ean13_weighted_sum :: "string \<Rightarrow> nat" where
  "ean13_weighted_sum s =
     sum_list (map (\<lambda>i. digit_value (s ! i) * (if even i then 1 else 3)) [0..<12])"

definition ean13_check_digit :: "string \<Rightarrow> nat" where
  "ean13_check_digit s = (10 - ean13_weighted_sum s mod 10) mod 10"

definition digit_char :: "nat \<Rightarrow> char" where
  "digit_char d = ''0123456789'' ! d"

section \<open>Book records and the client store (\<open>database.js\<close>)\<close>

text \<open>
  A field of a book record holds a JSON value; a record is the map of its own fields,
  and \<open>{...a, ...b}\<close> is \<open>a ++ b\<close>. The store \<open>this.data\<close> is the map of its own
  keys, from key to record; it is an object made by \<open>{}\<close> or \<open>JSON.parse\<close>, so its
  prototype is \<open>Object.prototype\<close>, whose property names are
  \<open>Object_prototype_names\<close>. A stored record is an object, hence truthy.
\<close>

definition Object_prototype_names :: "string list" where
  "Object_prototype_names =
     [''constructor'', ''__defineGetter__'', ''__defineSetter__'', ''hasOwnProperty'',
      ''__lookupGetter__'', ''__lookupSetter__'', ''isPrototypeOf'', ''propertyIsEnumerable'',
      ''toString'', ''valueOf'', ''__proto__'', ''toLocaleString'']"

datatype json =
    JNull
  | JBool bool
  | JNum int
  | JStr string
  | JArr "json list"
  | JObj "(string \<times> json) list"

fun truthy :: "json \<Rightarrow> bool" where
  "truthy JNull = False"
| "truthy (JBool b) = b"
| "truthy (JNum n) = (n \<noteq> 0)"
| "truthy (JStr s) = (s \<noteq> [])"
| "truthy (JArr _) = True"
| "truthy (JObj _) = True"

type_synonym book = "string \<rightharpoonup> json"

type_synonym store = "string \<rightharpoonup> book"

text \<open>
  The read \<open>this.data[k]\<close>, as far as the code uses it (its truth value and its
  spread). An own key gives its record. A name inherited from \<open>Object.prototype\<close>
  that is no own key gives a function (for \<open>__proto__\<close>, the prototype itself): it is
  truthy and a spread copies no property of it, which is \<open>Some Map.empty\<close>. Every
  other key gives \<open>undefined\<close>, which is \<open>None\<close>.
\<close>

definition js_get :: "store \<Rightarrow> string \<Rightarrow> book option" where
  "js_get data k =
     (case data k of
        Some b \<Rightarrow> Some b
      | None \<Rightarrow> if k \<in> set Object_prototype_names then Some Map.empty else None)"

text \<open>
  The write \<open>this.data[k] = b\<close> makes or replaces the own key \<open>k\<close>. The one
  exception is \<open>__proto__\<close> where it is no own key: the inherited setter then replaces
  the prototype of the store and makes no key. What is read through a replaced
  prototype is not part of the model.
\<close>

definition store_put :: "store \<Rightarrow> string \<Rightarrow> book \<Rightarrow> store" where
  "store_put data k b = (if k = ''__proto__'' \<and> data k = None then data else data(k \<mapsto> b))"

text \<open>The write \<open>record[f] = v\<close> on a stored record, with the same exception.\<close>

definition set_field :: "book \<Rightarrow> string \<Rightarrow> json \<Rightarrow> book" where
  "set_field b f v = (if f = ''__proto__'' \<and> b f = None then b else b(f \<mapsto> v))"

text \<open>\<open>data[k][f]\<close>, read where \<open>k\<close> is an own key; \<open>None\<close> otherwise.\<close>

definition stored_field :: "store \<Rightarrow> string \<Rightarrow> string \<Rightarrow> json option" where
  "stored_field data k f = (case data k of None \<Rightarrow> None | Some b \<Rightarrow> b f)"

text \<open>
  \<open>saveDatabase\<close> writes the store to \<open>localStorage\<close> and throws when that fails;
  the flag \<open>saved\<close> of the operations below says whether the write succeeded. A
  \<open>TypeError\<close> is what a property write on \<open>undefined\<close> throws.
\<close>

datatype db_error = SaveFailed | TypeError

text \<open>
  The loop of \<open>findBook\<close>: the first variant whose read is truthy, spread, with the
  field \<open>foundWithISBN\<close>.
\<close>

fun findBook_loop :: "store \<Rightarrow> string list \<Rightarrow> book option" where
  "findBook_loop data [] = None"
| "findBook_loop data (variant # rest) =
     (case js_get data variant of
        Some b \<Rightarrow> Some (b(''foundWithISBN'' \<mapsto> JStr variant))
      | None \<Rightarrow> findBook_loop data rest)"

definition BookDatabase_findBook :: "store \<Rightarrow> string \<Rightarrow> book option" where
  "BookDatabase_findBook data isbn = findBook_loop data (BookDatabase_getISBNVariants isbn)"

text \<open>
  The property key that the value of a field denotes. \<open>findBook\<close> always sets
  \<open>foundWithISBN\<close> to a string; a missing field would denote the key "undefined".
\<close>

fun key_of :: "json option \<Rightarrow> string" where
  "key_of (Some (JStr s)) = s"
| "key_of _ = ''undefined''"

text \<open>\<open>bookInfo.source || 'unknown'\<close>.\<close>

definition source_or_unknown :: "book \<Rightarrow> json" where
  "source_or_unknown bookInfo =
     (case bookInfo ''source'' of
        Some v \<Rightarrow> if truthy v then v else JStr ''unknown''
      | None \<Rightarrow> JStr ''unknown'')"

text \<open>
  \<open>BookDatabase.addBook\<close>; \<open>now\<close> is \<open>new Date().toISOString()\<close>. The result is the
  store in memory and what the call returns or throws. It returns
  \<open>this.data[normalizedISBN]\<close>, which is \<open>finalBookData\<close> after the write (also where
  the write went to the prototype).
\<close>

definition BookDatabase_addBook ::
  "store \<Rightarrow> string \<Rightarrow> book \<Rightarrow> string \<Rightarrow> bool \<Rightarrow> store \<times> (db_error + book)" where
  "BookDatabase_addBook data isbn bookInfo now saved =
     (let normalizedISBN = BookDatabase_normalizeISBN isbn;
          (data1, finalBookData) =
            (case BookDatabase_findBook data isbn of
               Some existingBook \<Rightarrow>
                 (if key_of (existingBook ''foundWithISBN'') \<noteq> normalizedISBN
                  then data(key_of (existingBook ''foundWithISBN'') := None) else data,
                  (existingBook ++ bookInfo)(''lastUpdated'' \<mapsto> JStr now))
             | None \<Rightarrow>
                 (data,
                  bookInfo(''lastUpdated'' \<mapsto> JStr now, ''source'' \<mapsto> source_or_unknown bookInfo)));
          data2 = store_put data1 normalizedISBN finalBookData
      in if saved then (data2, Inr finalBookData) else (data2, Inl SaveFailed))"

text \<open>
  \<open>BookDatabase.updateBookField\<close>. The migration copies \<open>{...this.data[k]}\<close>, which
  is the empty object where \<open>this.data[k]\<close> is \<open>undefined\<close>. The two field writes
  then change the record stored under the normalised key in place. Where that key is
  no own key but an inherited name, they change the inherited object and no key of the
  store; where it is neither, the write throws.
\<close>

definition BookDatabase_updateBookField ::
  "store \<Rightarrow> string \<Rightarrow> string \<Rightarrow> json \<Rightarrow> string \<Rightarrow> bool \<Rightarrow> store \<times> (db_error + bool)" where
  "BookDatabase_updateBookField data isbn field val now saved =
     (case BookDatabase_findBook data isbn of
        None \<Rightarrow> (data, Inr False)
      | Some found \<Rightarrow>
          let normalizedISBN = BookDatabase_normalizeISBN isbn;
              currentStorageISBN = key_of (found ''foundWithISBN'');
              data1 =
                (if currentStorageISBN \<noteq> normalizedISBN
                 then (store_put data normalizedISBN
                         (case js_get data currentStorageISBN of
                            Some b \<Rightarrow> b | None \<Rightarrow> Map.empty))
                      (currentStorageISBN := None)
                 else data)
          in (case data1 normalizedISBN of
                None \<Rightarrow>
                  if js_get data1 normalizedISBN = None then (data1, Inl TypeError)
                  else if saved then (data1, Inr True) else (data1, Inl SaveFailed)
              | Some b \<Rightarrow>
                  let data2 =
                        data1(normalizedISBN \<mapsto>
                          (set_field b field val)(''lastUpdated'' \<mapsto> JStr now))
                  in if saved then (data2, Inr True) else (data2, Inl SaveFailed)))"

text \<open>
  The loop of \<open>BookDatabase.deleteBook\<close>, then the function; \<open>delete this.data[k]\<close>
  removes an own key and nothing else.
\<close>

fun deleteBook_loop :: "store \<Rightarrow> string list \<Rightarrow> bool \<Rightarrow> store \<times> bool" where
  "deleteBook_loop data [] deleted = (data, deleted)"
| "deleteBook_loop data (variant # rest) deleted =
     (if js_get data variant \<noteq> None then deleteBook_loop (data(variant := None)) rest True
      else deleteBook_loop data rest deleted)"

definition BookDatabase_deleteBook :: "store \<Rightarrow> string \<Rightarrow> bool \<Rightarrow> store \<times> (db_error + bool)" where
  "BookDatabase_deleteBook data isbn saved =
     (let (data1, deleted) = deleteBook_loop data (BookDatabase_getISBNVariants isbn) False
      in if deleted \<and> \<not> saved then (data1, Inl SaveFailed) else (data1, Inr deleted))"

section \<open>The server store (\<open>server.js\<close>)\<close>

text \<open>
  A handler answers with a status: 400 with the validation error, 404, 500 when
  \<open>saveDatabase\<close> or the query throws, or success with a body. \<open>this.books\<close> is a store
  as above, read and written in the same way. A handler reads it only under an
  identifier that passed validation, which is never an inherited name
  (\<open>validated_not_inherited\<close> below).
\<close>

datatype 'a response = Status400 validation_error | Status404 | Status500 | Success 'a


text \<open>\<open>ISBNServer.deleteBook\<close> of the file-backed server.\<close>

definition ISBNServer_deleteBook :: "store \<Rightarrow> string \<Rightarrow> bool \<Rightarrow> store \<times> unit response" where
  "ISBNServer_deleteBook books isbn saved =
     (case ISBNServer_validateISBN isbn of
        Invalid e \<Rightarrow> (books, Status400 e)
      | Valid v \<Rightarrow>
          (case js_get books v of
             None \<Rightarrow> (books, Status404)
           | Some _ \<Rightarrow>
               let books1 = books(v := None)
               in if saved then (books1, Success ()) else (books1, Status500)))"

text \<open>
  \<open>ISBNServer.deleteBook\<close> of the server backed by the table \<open>books\<close> (primary key
  \<open>isbn\<close>): \<open>DELETE FROM books WHERE isbn = $1\<close> with the normalised identifier;
  status 204 is \<open>Success\<close>, and \<open>queried\<close> says whether the query succeeded.
\<close>

definition ISBNServer_pg_deleteBook :: "store \<Rightarrow> string \<Rightarrow> bool \<Rightarrow> store \<times> unit response" where
  "ISBNServer_pg_deleteBook books isbn queried =
     (case ISBNServer_validateISBN isbn of
        Invalid e \<Rightarrow> (books, Status400 e)
      | Valid v \<Rightarrow>
          let normalizedISBN = ISBNServer_normalizeISBN v
          in if \<not> queried then (books, Status500)
             else (case books normalizedISBN of
                     None \<Rightarrow> (books, Status404)
                   | Some _ \<Rightarrow> (books(normalizedISBN := None), Success ())))"

section \<open>Properties of cleaning, the checksums and the conversions\<close>


subsection \<open>Cleaning\<close>

lemma cleanISBN_idem: "cleanISBN (cleanISBN s) = cleanISBN s"
  by (simp add: cleanISBN_def)

lemma cleanISBN_fixed: "list_all unstripped s \<Longrightarrow> cleanISBN s = s"
  by (induction s) (simp_all add: cleanISBN_def unstripped_def)

lemma cleanISBN_unstripped: "list_all unstripped (cleanISBN s)"
  by (simp add: cleanISBN_def unstripped_def list_all_iff)

lemma unstripped_take: "list_all unstripped s \<Longrightarrow> list_all unstripped (take n s)"
  by (auto simp: list_all_iff dest: in_set_takeD)

lemma is_digit_unstripped: "is_digit c \<Longrightarrow> unstripped c"
  by (auto simp: is_digit_def unstripped_def is_space_def)

lemma digit_nth: "n < 10 \<Longrightarrow> is_digit (''0123456789'' ! n)"
proof -
  assume "n < 10"
  then have "n \<in> {0, 1, 2, 3, 4, 5, 6, 7, 8, 9}" by auto
  then show ?thesis by (auto simp: is_digit_def)
qed

subsection \<open>The checksum loops\<close>

lemma parseInt_at_cases:
  "parseInt_at p i = NaN \<or> (\<exists>v. parseInt_at p i = Num v \<and> 0 \<le> v)"
  by (simp add: parseInt_at_def parseInt_char_def is_digit_def)

lemma parseInt_at_digit:
  "i < length p \<Longrightarrow> is_digit (p ! i) \<Longrightarrow> parseInt_at p i = Num (int (digit_value (p ! i)))"
  by (simp add: parseInt_at_def parseInt_char_def is_digit_def digit_value_def)

lemma isbn13_step_NaN: "isbn13_step p i NaN = NaN"
  by (simp add: isbn13_step_def)

lemma isbn10_step_NaN: "isbn10_step p i NaN = NaN"
  by (simp add: isbn10_step_def)

lemma fold13_NaN: "fold (isbn13_step p) xs NaN = NaN"
  by (induction xs) (simp_all add: isbn13_step_NaN)

lemma fold10_NaN: "fold (isbn10_step p) xs NaN = NaN"
  by (induction xs) (simp_all add: isbn10_step_NaN)

lemma isbn13_step_cases:
  "isbn13_step p i (Num a) = NaN \<or> (\<exists>b. isbn13_step p i (Num a) = Num b \<and> a \<le> b)"
  using parseInt_at_cases [of p i] by (auto simp: isbn13_step_def)

lemma isbn10_step_cases:
  "i \<le> 10 \<Longrightarrow>
   isbn10_step p i (Num a) = NaN \<or> (\<exists>b. isbn10_step p i (Num a) = Num b \<and> a \<le> b)"
  using parseInt_at_cases [of p i] by (auto simp: isbn10_step_def)

lemma fold13_cases:
  "fold (isbn13_step p) xs (Num a) = NaN \<or>
   (\<exists>b. fold (isbn13_step p) xs (Num a) = Num b \<and> a \<le> b)"
proof (induction xs arbitrary: a)
  case Nil
  show ?case by simp
next
  case (Cons i xs)
  from isbn13_step_cases [of p i a] show ?case
  proof
    assume "isbn13_step p i (Num a) = NaN"
    then show ?thesis by (simp add: fold13_NaN)
  next
    assume "\<exists>b. isbn13_step p i (Num a) = Num b \<and> a \<le> b"
    then obtain b where b: "isbn13_step p i (Num a) = Num b" "a \<le> b" by blast
    from Cons.IH [of b] b show ?thesis by auto
  qed
qed

lemma fold10_cases:
  "list_all (\<lambda>i. i \<le> 10) xs \<Longrightarrow>
   fold (isbn10_step p) xs (Num a) = NaN \<or>
   (\<exists>b. fold (isbn10_step p) xs (Num a) = Num b \<and> a \<le> b)"
proof (induction xs arbitrary: a)
  case Nil
  show ?case by simp
next
  case (Cons i xs)
  then have i: "i \<le> 10" and xs: "list_all (\<lambda>i. i \<le> 10) xs" by simp_all
  from isbn10_step_cases [OF i, of p a] show ?case
  proof
    assume "isbn10_step p i (Num a) = NaN"
    then show ?thesis by (simp add: fold10_NaN)
  next
    assume "\<exists>b. isbn10_step p i (Num a) = Num b \<and> a \<le> b"
    then obtain b where b: "isbn10_step p i (Num a) = Num b" "a \<le> b" by blast
    from Cons.IH [OF xs, of b] b show ?thesis by auto
  qed
qed

lemma fold13_digits:
  "list_all (\<lambda>i. i < length p \<and> is_digit (p ! i)) xs \<Longrightarrow>
   fold (isbn13_step p) xs (Num a) =
     Num (a + int (sum_list (map (\<lambda>i. digit_value (p ! i) * (if even i then 1 else 3)) xs)))"
proof (induction xs arbitrary: a)
  case Nil
  show ?case by simp
next
  case (Cons i xs)
  then have i: "i < length p" "is_digit (p ! i)"
    and xs: "list_all (\<lambda>i. i < length p \<and> is_digit (p ! i)) xs" by simp_all
  have "isbn13_step p i (Num a) = Num (a + int (digit_value (p ! i) * (if even i then 1 else 3)))"
    using i by (simp add: isbn13_step_def parseInt_at_digit even_iff_mod_2_eq_zero)
  then show ?case using Cons.IH [OF xs] by (simp add: algebra_simps)
qed

lemma fold13_nondigit:
  "i \<in> set xs \<Longrightarrow> parseInt_at p i = NaN \<Longrightarrow> fold (isbn13_step p) xs acc = NaN"
proof (induction xs arbitrary: acc)
  case Nil
  then show ?case by simp
next
  case (Cons j xs)
  show ?case
  proof (cases "j = i")
    case True
    then have "isbn13_step p j acc = NaN"
      using Cons.prems(2) by (cases acc) (simp_all add: isbn13_step_def)
    then show ?thesis by (simp add: fold13_NaN)
  next
    case False
    then have "i \<in> set xs" using Cons.prems(1) by simp
    from Cons.IH [OF this Cons.prems(2)] show ?thesis by simp
  qed
qed

lemma fold10_nondigit:
  "i \<in> set xs \<Longrightarrow> parseInt_at p i = NaN \<Longrightarrow> fold (isbn10_step p) xs acc = NaN"
proof (induction xs arbitrary: acc)
  case Nil
  then show ?case by simp
next
  case (Cons j xs)
  show ?case
  proof (cases "j = i")
    case True
    then have "isbn10_step p j acc = NaN"
      using Cons.prems(2) by (cases acc) (simp_all add: isbn10_step_def)
    then show ?thesis by (simp add: fold10_NaN)
  next
    case False
    then have "i \<in> set xs" using Cons.prems(1) by simp
    from Cons.IH [OF this Cons.prems(2)] show ?thesis by simp
  qed
qed

lemma isbn13_sum_cases:
  "isbn13_sum p = NaN \<or> (\<exists>b. isbn13_sum p = Num b \<and> 0 \<le> b)"
  using fold13_cases [of p "[0..<12]" 0] by (simp add: isbn13_sum_def)

lemma isbn10_sum_cases:
  "isbn10_sum p = NaN \<or> (\<exists>b. isbn10_sum p = Num b \<and> 0 \<le> b)"
proof -
  have "list_all (\<lambda>i. i \<le> 10) [0..<9]" by (simp add: list_all_iff)
  from fold10_cases [OF this, of p 0] show ?thesis by (simp add: isbn10_sum_def)
qed

lemma checkDigit13_of_sum:
  "0 \<le> b \<Longrightarrow> isbn13_sum p = Num b \<Longrightarrow>
   isbn13_checkDigit p = Num (int (nat ((10 - b mod 10) mod 10)))"
  by (simp add: isbn13_checkDigit_def sgn_if abs_if)

lemma checkDigit10_of_sum:
  "0 \<le> b \<Longrightarrow> isbn10_sum p = Num b \<Longrightarrow>
   isbn10_checkDigit p = Num (int (nat ((11 - b mod 11) mod 11)))"
  by (simp add: isbn10_checkDigit_def sgn_if abs_if)

lemma isbn13_checkDigit_cases:
  "isbn13_checkDigit p = NaN \<or> (\<exists>d. isbn13_checkDigit p = Num (int d) \<and> d < 10)"
proof -
  from isbn13_sum_cases [of p] show ?thesis
  proof
    assume "isbn13_sum p = NaN"
    then show ?thesis by (simp add: isbn13_checkDigit_def)
  next
    assume "\<exists>b. isbn13_sum p = Num b \<and> 0 \<le> b"
    then obtain b where b: "isbn13_sum p = Num b" "0 \<le> b" by blast
    have "nat ((10 - b mod 10) mod 10) < 10" by simp
    with checkDigit13_of_sum [OF b(2) b(1)] show ?thesis by blast
  qed
qed

lemma isbn10_checkDigit_cases:
  "isbn10_checkDigit p = NaN \<or> (\<exists>d. isbn10_checkDigit p = Num (int d) \<and> d < 11)"
proof -
  from isbn10_sum_cases [of p] show ?thesis
  proof
    assume "isbn10_sum p = NaN"
    then show ?thesis by (simp add: isbn10_checkDigit_def)
  next
    assume "\<exists>b. isbn10_sum p = Num b \<and> 0 \<le> b"
    then obtain b where b: "isbn10_sum p = Num b" "0 \<le> b" by blast
    have "nat ((11 - b mod 11) mod 11) < 11" by simp
    with checkDigit10_of_sum [OF b(2) b(1)] show ?thesis by blast
  qed
qed

lemma num_to_string_digit: "d < 10 \<Longrightarrow> num_to_string (Num (int d)) = [''0123456789'' ! d]"
  by (simp add: num_to_string_def nat_to_string.simps)

lemma num_to_string_NaN: "num_to_string NaN = ''NaN''"
  by (simp add: num_to_string_def)

lemma checkDigit13_string:
  "num_to_string (isbn13_checkDigit p) = ''NaN'' \<or>
   (\<exists>c. num_to_string (isbn13_checkDigit p) = [c] \<and> is_digit c)"
  using isbn13_checkDigit_cases [of p]
  by (auto simp: num_to_string_digit num_to_string_NaN digit_nth)

lemma checkChar10_string:
  "isbn10_checkChar p = ''NaN'' \<or> isbn10_checkChar p = ''X'' \<or>
   (\<exists>c. isbn10_checkChar p = [c] \<and> is_digit c)"
proof -
  from isbn10_checkDigit_cases [of p] show ?thesis
  proof
    assume "isbn10_checkDigit p = NaN"
    then show ?thesis by (simp add: isbn10_checkChar_def num_to_string_NaN)
  next
    assume "\<exists>d. isbn10_checkDigit p = Num (int d) \<and> d < 11"
    then obtain d where d: "isbn10_checkDigit p = Num (int d)" "d < 11" by blast
    show ?thesis
    proof (cases "d = 10")
      case True
      with d show ?thesis by (simp add: isbn10_checkChar_def)
    next
      case False
      with d have "d < 10" by simp
      with d False show ?thesis
        by (simp add: isbn10_checkChar_def num_to_string_digit digit_nth)
    qed
  qed
qed

lemma checkDigit13_unstripped: "list_all unstripped (num_to_string (isbn13_checkDigit p))"
proof -
  have "list_all unstripped ''NaN''" by (simp add: unstripped_def is_space_def)
  then show ?thesis using checkDigit13_string [of p] by (auto simp: is_digit_unstripped)
qed


subsection \<open>Conversions in closed form\<close>

lemma convertISBN10ToISBN13_10:
  "length c = 10 \<Longrightarrow>
   convertISBN10ToISBN13 c =
     Some (''978'' @ take 9 c @ num_to_string (isbn13_checkDigit (''978'' @ take 9 c)))"
  by (auto simp: convertISBN10ToISBN13_def substring_def Let_def)

lemma convertISBN10ToISBN13_None: "length c \<noteq> 10 \<Longrightarrow> convertISBN10ToISBN13 c = None"
  by (simp add: convertISBN10ToISBN13_def)

lemma convertISBN13ToISBN10_13:
  "length c = 13 \<Longrightarrow> startsWith c ''978'' \<Longrightarrow>
   convertISBN13ToISBN10 c =
     Some (take 9 (drop 3 c) @ isbn10_checkChar (take 9 (drop 3 c)))"
proof -
  assume len: "length c = 13" and pre: "startsWith c ''978''"
  have "drop 3 (take 12 c) = take 9 (drop 3 c)" by (simp add: drop_take)
  then show ?thesis using len pre
    by (auto simp: convertISBN13ToISBN10_def substring_def Let_def)
qed

lemma convertISBN13ToISBN10_None:
  "\<not> (length c = 13 \<and> startsWith c ''978'') \<Longrightarrow> convertISBN13ToISBN10 c = None"
  by (auto simp: convertISBN13ToISBN10_def)

lemma server_normalize_10:
  "length (cleanISBN x) = 10 \<Longrightarrow>
   ISBNServer_normalizeISBN x =
     ''978'' @ take 9 (cleanISBN x) @
       num_to_string (isbn13_checkDigit (''978'' @ take 9 (cleanISBN x)))"
  by (auto simp: ISBNServer_normalizeISBN_def sentinel_def substring_def Let_def)

lemma normalize_agree: "BookDatabase_normalizeISBN x = ISBNServer_normalizeISBN x"
proof (cases "length (cleanISBN x) = 10")
  case True
  then show ?thesis
    by (simp add: BookDatabase_normalizeISBN_def server_normalize_10 convertISBN10ToISBN13_10
        sentinel_def Let_def) auto
next
  case False
  then show ?thesis
    by (simp add: BookDatabase_normalizeISBN_def ISBNServer_normalizeISBN_def Let_def)
qed

lemma server_normalize_other:
  "length (cleanISBN x) \<noteq> 10 \<Longrightarrow> ISBNServer_normalizeISBN x = cleanISBN x"
  by (simp add: ISBNServer_normalizeISBN_def Let_def)

lemma normalize_unstripped: "list_all unstripped (ISBNServer_normalizeISBN x)"
proof (cases "length (cleanISBN x) = 10")
  case True
  have "unstripped CHR ''9''" "unstripped CHR ''7''" "unstripped CHR ''8''"
    by (simp_all add: unstripped_def is_space_def)
  then show ?thesis
    using True
    by (simp add: server_normalize_10 unstripped_take cleanISBN_unstripped
        checkDigit13_unstripped)
next
  case False
  then show ?thesis by (simp add: server_normalize_other cleanISBN_unstripped)
qed

lemma normalize_length: "length (ISBNServer_normalizeISBN x) \<noteq> 10"
proof (cases "length (cleanISBN x) = 10")
  case True
  from checkDigit13_string [of "''978'' @ take 9 (cleanISBN x)"] True
  show ?thesis by (auto simp: server_normalize_10)
next
  case False
  then show ?thesis by (simp add: server_normalize_other)
qed

subsection \<open>The code against the check digit of the specification\<close>


lemma isbn13_sum_digits:
  assumes "length p = 12" and "list_all is_digit p"
  shows "isbn13_sum p = Num (int (ean13_weighted_sum p))"
proof -
  have "list_all (\<lambda>i. i < length p \<and> is_digit (p ! i)) [0..<12]"
    using assms by (simp add: list_all_iff all_set_conv_all_nth)
  from fold13_digits [OF this, of 0] show ?thesis
    by (simp add: isbn13_sum_def ean13_weighted_sum_def)
qed

lemma isbn13_checkDigit_digits:
  assumes "length p = 12" and "list_all is_digit p"
  shows "isbn13_checkDigit p = Num (int (ean13_check_digit p))"
proof -
  have s: "isbn13_sum p = Num (int (ean13_weighted_sum p))"
    using assms by (rule isbn13_sum_digits)
  have "(10 - int (ean13_weighted_sum p) mod 10) mod 10 =
        int ((10 - ean13_weighted_sum p mod 10) mod 10)"
    by (simp add: of_nat_mod of_nat_diff)
  with checkDigit13_of_sum [OF _ s] show ?thesis
    by (simp add: ean13_check_digit_def)
qed

lemma ean13_check_digit_less: "ean13_check_digit p < 10"
  by (simp add: ean13_check_digit_def)

lemma partial_digits:
  "list_all is_digit (take 9 c) \<Longrightarrow> list_all is_digit (''978'' @ take 9 c)"
  by (simp add: is_digit_def)

lemma server_normalize_digits:
  assumes "length (cleanISBN raw) = 10" and "list_all is_digit (take 9 (cleanISBN raw))"
  shows "ISBNServer_normalizeISBN raw =
           ''978'' @ take 9 (cleanISBN raw) @
             [digit_char (ean13_check_digit (''978'' @ take 9 (cleanISBN raw)))]"
proof -
  let ?p = "''978'' @ take 9 (cleanISBN raw)"
  have "length ?p = 12" using assms(1) by simp
  moreover have "list_all is_digit ?p" using assms(2) by (rule partial_digits)
  ultimately have "isbn13_checkDigit ?p = Num (int (ean13_check_digit ?p))"
    by (rule isbn13_checkDigit_digits)
  then have "num_to_string (isbn13_checkDigit ?p) = [digit_char (ean13_check_digit ?p)]"
    by (simp add: num_to_string_digit ean13_check_digit_less digit_char_def)
  then show ?thesis using assms(1) by (simp add: server_normalize_10)
qed

subsection \<open>The round trip\<close>


lemma isbn13_sum_nondigit:
  assumes "i < 12" and "parseInt_at p i = NaN"
  shows "isbn13_sum p = NaN"
proof -
  have "i \<in> set [0..<12]" using assms(1) by simp
  from fold13_nondigit [OF this assms(2)] show ?thesis by (simp add: isbn13_sum_def)
qed

lemma isbn10_sum_nondigit:
  assumes "i < 9" and "parseInt_at p i = NaN"
  shows "isbn10_sum p = NaN"
proof -
  have "i \<in> set [0..<9]" using assms(1) by simp
  from fold10_nondigit [OF this assms(2)] show ?thesis by (simp add: isbn10_sum_def)
qed

lemma nondigit_index:
  assumes "\<not> list_all is_digit s"
  shows "\<exists>i < length s. \<not> is_digit (s ! i)"
  using assms by (auto simp: list_all_iff in_set_conv_nth)

lemma roundtrip10_digits:
  assumes "length x = 10" and "list_all is_digit (take 9 x)"
  shows "roundtrip10 x = Some (take 9 x @ isbn10_checkChar (take 9 x))"
proof -
  let ?p = "''978'' @ take 9 x"
  let ?n = "?p @ [digit_char (ean13_check_digit ?p)]"
  have "length ?p = 12" using assms(1) by simp
  moreover have "list_all is_digit ?p" using assms(2) by (rule partial_digits)
  ultimately have "isbn13_checkDigit ?p = Num (int (ean13_check_digit ?p))"
    by (rule isbn13_checkDigit_digits)
  then have "num_to_string (isbn13_checkDigit ?p) = [digit_char (ean13_check_digit ?p)]"
    by (simp add: num_to_string_digit ean13_check_digit_less digit_char_def)
  then have n: "convertISBN10ToISBN13 x = Some ?n"
    using assms(1) by (simp add: convertISBN10ToISBN13_10)
  have "length ?n = 13" "startsWith ?n ''978''" "take 9 (drop 3 ?n) = take 9 x"
    using assms(1) by (simp_all add: startsWith_def)
  then have "convertISBN13ToISBN10 ?n = Some (take 9 x @ isbn10_checkChar (take 9 x))"
    using convertISBN13ToISBN10_13 [of ?n] by simp
  with n show ?thesis by (simp add: roundtrip10_def)
qed

lemma roundtrip10_nondigit:
  assumes "length x = 10" and "\<not> list_all is_digit (take 9 x)"
  shows "roundtrip10 x = None" and "isbn10_checkChar (take 9 x) = ''NaN''"
proof -
  from nondigit_index [OF assms(2)] obtain i where
    i: "i < 9" "\<not> is_digit (take 9 x ! i)" using assms(1) by auto
  let ?p = "''978'' @ take 9 x"
  have "parseInt_at ?p (i + 3) = NaN"
    using i assms(1) by (simp add: parseInt_at_def parseInt_char_def nth_append)
  moreover have "i + 3 < 12" using i by simp
  ultimately have "isbn13_sum ?p = NaN" by (rule isbn13_sum_nondigit [rotated])
  then have "num_to_string (isbn13_checkDigit ?p) = ''NaN''"
    by (simp add: isbn13_checkDigit_def num_to_string_NaN)
  then have "convertISBN10ToISBN13 x = Some (?p @ ''NaN'')"
    using assms(1) by (simp add: convertISBN10ToISBN13_10)
  moreover have "convertISBN13ToISBN10 (?p @ ''NaN'') = None"
    using assms(1) by (simp add: convertISBN13ToISBN10_None)
  ultimately show "roundtrip10 x = None" by (simp add: roundtrip10_def)
  have "parseInt_at (take 9 x) i = NaN"
    using i assms(1) by (simp add: parseInt_at_def parseInt_char_def)
  with i(1) have "isbn10_sum (take 9 x) = NaN" by (rule isbn10_sum_nondigit)
  then show "isbn10_checkChar (take 9 x) = ''NaN''"
    by (simp add: isbn10_checkChar_def isbn10_checkDigit_def num_to_string_NaN)
qed

lemma split_last10: "length x = 10 \<Longrightarrow> x = take 9 x @ [x ! 9]"
proof -
  assume l: "length x = 10"
  have "x ! 9 # drop (Suc 9) x = drop 9 x"
    using l by (intro Cons_nth_drop_Suc) simp
  moreover have "drop (Suc 9) x = []" using l by simp
  ultimately have "drop 9 x = [x ! 9]" by simp
  then have "take 9 x @ [x ! 9] = take 9 x @ drop 9 x" by simp
  then show ?thesis by simp
qed

text \<open>Unfolding the definitions evaluates the functions on a concrete identifier.\<close>

lemmas isbn_eval =
  cleanISBN_def is_space_def sentinel_def substring_def startsWith_def
  BookDatabase_normalizeISBN_def ISBNServer_normalizeISBN_def
  convertISBN10ToISBN13_def convertISBN13ToISBN10_def
  isbn13_checkDigit_def isbn13_sum_def isbn13_step_def
  isbn10_checkChar_def isbn10_checkDigit_def isbn10_sum_def isbn10_step_def
  parseInt_at_def parseInt_char_def is_digit_def num_to_string_def nat_to_string.simps
  upt_rec Let_def

lemma normalize_hyphenated: "ISBNServer_normalizeISBN ''0-15-601398-7'' = ''9780156013987''"
  by (simp add: isbn_eval)

section \<open>Normalisation is idempotent\<close>

text \<open>
  Claim C7. For every input string \<open>x\<close>, normalising twice gives what normalising once
  gives, \<open>normalize(normalize(x)) == normalize(x)\<close>, in the client
  (\<open>BookDatabase.normalizeISBN\<close>) and in the server (\<open>ISBNServer.normalizeISBN\<close>).
\<close>

theorem normalize_idempotent:
  "BookDatabase_normalizeISBN (BookDatabase_normalizeISBN x) = BookDatabase_normalizeISBN x \<and>
   ISBNServer_normalizeISBN (ISBNServer_normalizeISBN x) = ISBNServer_normalizeISBN x"
proof -
  have "cleanISBN (ISBNServer_normalizeISBN x) = ISBNServer_normalizeISBN x"
    by (rule cleanISBN_fixed) (rule normalize_unstripped)
  then have "ISBNServer_normalizeISBN (ISBNServer_normalizeISBN x) = ISBNServer_normalizeISBN x"
    using normalize_length [of x] by (simp add: server_normalize_other)
  then show ?thesis by (simp add: normalize_agree)
qed

theorem normalize_idempotent_witness:
  "BookDatabase_normalizeISBN (BookDatabase_normalizeISBN ''0-15-601398-7'') = ''9780156013987'' \<and>
   ISBNServer_normalizeISBN (ISBNServer_normalizeISBN ''0-15-601398-7'') = ''9780156013987''"
  using normalize_idempotent [of "''0-15-601398-7''"]
  by (simp add: normalize_agree normalize_hyphenated)

section \<open>The length rule of validation\<close>

text \<open>
  Claim C8. For every raw input whose cleaned form is not the sentinel and whose length
  is neither 10 nor 13 (such as "12345"), validation fails with the length error,
  whatever the characters of the input are: the length is the first rule checked after
  the sentinel, in the validator of the client and in the validator of the server.
\<close>

theorem invalid_length_first:
  assumes "cleanISBN raw \<noteq> sentinel"
    and "length (cleanISBN raw) \<noteq> 10" and "length (cleanISBN raw) \<noteq> 13"
  shows "BookAPIService_validateISBN raw = Invalid InvalidLength \<and>
         ISBNServer_validateISBN raw = Invalid InvalidLength"
  using assms by (simp add: BookAPIService_validateISBN_def ISBNServer_validateISBN_def Let_def)

theorem invalid_length_first_witness:
  "cleanISBN ''12345'' \<noteq> sentinel \<and> length (cleanISBN ''12345'') \<noteq> 10 \<and>
   length (cleanISBN ''12345'') \<noteq> 13 \<and>
   BookAPIService_validateISBN ''12345'' = Invalid InvalidLength \<and>
   ISBNServer_validateISBN ''12345'' = Invalid InvalidLength"
proof -
  have a: "cleanISBN ''12345'' \<noteq> sentinel" by (simp add: isbn_eval)
  have b: "length (cleanISBN ''12345'') \<noteq> 10" by (simp add: isbn_eval)
  have c: "length (cleanISBN ''12345'') \<noteq> 13" by (simp add: isbn_eval)
  from invalid_length_first [OF a b c] a b c show ?thesis by simp
qed

section \<open>The shape of a normalised ISBN-10\<close>

text \<open>
  Claim C10. For every raw input whose cleaned form has exactly 10 characters, the first
  9 of them decimal digits, normalisation (client and server) returns a string of
  exactly 13 characters that starts with "978" and whose last character is the EAN-13
  check digit of its first 12. The result is built from the first 9 characters alone:
  two inputs that agree on them normalise to the same string, whatever their 10th
  character is.
\<close>

theorem normalize_isbn10_shape:
  assumes "length (cleanISBN raw) = 10" and "list_all is_digit (take 9 (cleanISBN raw))"
  shows "BookDatabase_normalizeISBN raw =
           ''978'' @ take 9 (cleanISBN raw) @
             [digit_char (ean13_check_digit (''978'' @ take 9 (cleanISBN raw)))] \<and>
         ISBNServer_normalizeISBN raw = BookDatabase_normalizeISBN raw \<and>
         length (BookDatabase_normalizeISBN raw) = 13 \<and>
         startsWith (BookDatabase_normalizeISBN raw) ''978'' \<and>
         last (BookDatabase_normalizeISBN raw) =
           digit_char (ean13_check_digit (take 12 (BookDatabase_normalizeISBN raw))) \<and>
         (length (cleanISBN raw') = 10 \<and> take 9 (cleanISBN raw') = take 9 (cleanISBN raw) \<longrightarrow>
            BookDatabase_normalizeISBN raw' = BookDatabase_normalizeISBN raw \<and>
            ISBNServer_normalizeISBN raw' = ISBNServer_normalizeISBN raw)"
proof -
  let ?p = "''978'' @ take 9 (cleanISBN raw)"
  have eq: "ISBNServer_normalizeISBN raw = ?p @ [digit_char (ean13_check_digit ?p)]"
    using server_normalize_digits [OF assms] by simp
  have len: "length ?p = 12" using assms(1) by simp
  have indep: "ISBNServer_normalizeISBN raw' = ISBNServer_normalizeISBN raw"
    if "length (cleanISBN raw') = 10" "take 9 (cleanISBN raw') = take 9 (cleanISBN raw)"
    using that assms(1) by (simp add: server_normalize_10)
  have "take 12 (?p @ [digit_char (ean13_check_digit ?p)]) = ?p"
    using len by simp
  then show ?thesis
    using eq len indep assms(1) by (simp add: normalize_agree startsWith_def)
qed

theorem normalize_isbn10_shape_witness:
  "length (cleanISBN ''0-15-601398-7'') = 10 \<and>
   list_all is_digit (take 9 (cleanISBN ''0-15-601398-7'')) \<and>
   BookDatabase_normalizeISBN ''0-15-601398-7'' = ''9780156013987'' \<and>
   ISBNServer_normalizeISBN ''0-15-601398-7'' = ''9780156013987'' \<and>
   digit_char (ean13_check_digit ''978015601398'') = CHR ''7'' \<and>
   BookDatabase_normalizeISBN ''015601398X'' = BookDatabase_normalizeISBN ''0-15-601398-7''"
proof -
  have a: "length (cleanISBN ''0-15-601398-7'') = 10" by (simp add: isbn_eval)
  have b: "list_all is_digit (take 9 (cleanISBN ''0-15-601398-7''))" by (simp add: isbn_eval)
  have c: "length (cleanISBN ''015601398X'') = 10 \<and>
           take 9 (cleanISBN ''015601398X'') = take 9 (cleanISBN ''0-15-601398-7'')"
    by (simp add: isbn_eval)
  have d: "digit_char (ean13_check_digit ''978015601398'') = CHR ''7''"
    by (simp add: digit_char_def ean13_check_digit_def ean13_weighted_sum_def digit_value_def upt_rec)
  from normalize_isbn10_shape [OF a b, of "''015601398X''"] a b c d show ?thesis
    by (simp add: normalize_agree normalize_hyphenated)
qed

section \<open>The conversions return on every string\<close>

text \<open>
  Claim C9. \<open>convertISBN10ToISBN13\<close> and \<open>convertISBN13ToISBN10\<close> return a string or
  \<open>null\<close> on every string, malformed ones included; no operation of theirs throws on a
  string. The theorem gives the result for every input: \<open>null\<close> exactly when the guard
  rejects the input, and otherwise the nine characters taken from the input (after
  "978" for the first function) followed by a check character, which is "NaN" when one
  of the characters read is no digit.
\<close>

theorem conversions_total:
  "(convertISBN10ToISBN13 x = None \<longleftrightarrow> length x \<noteq> 10) \<and>
   (length x = 10 \<longrightarrow>
      (\<exists>d. convertISBN10ToISBN13 x = Some (''978'' @ take 9 x @ d) \<and>
           (d = ''NaN'' \<or> (\<exists>c. d = [c] \<and> is_digit c)))) \<and>
   (convertISBN13ToISBN10 x = None \<longleftrightarrow> \<not> (length x = 13 \<and> startsWith x ''978'')) \<and>
   (length x = 13 \<and> startsWith x ''978'' \<longrightarrow>
      (\<exists>d. convertISBN13ToISBN10 x = Some (take 9 (drop 3 x) @ d) \<and>
           (d = ''NaN'' \<or> d = ''X'' \<or> (\<exists>c. d = [c] \<and> is_digit c))))"
proof -
  have a: "convertISBN10ToISBN13 x = None \<longleftrightarrow> length x \<noteq> 10"
    by (cases "length x = 10") (simp_all add: convertISBN10ToISBN13_10 convertISBN10ToISBN13_None)
  have b: "\<exists>d. convertISBN10ToISBN13 x = Some (''978'' @ take 9 x @ d) \<and>
           (d = ''NaN'' \<or> (\<exists>c. d = [c] \<and> is_digit c))" if "length x = 10"
    using that checkDigit13_string [of "''978'' @ take 9 x"]
    by (simp add: convertISBN10ToISBN13_10)
  have c: "convertISBN13ToISBN10 x = None \<longleftrightarrow> \<not> (length x = 13 \<and> startsWith x ''978'')"
    by (cases "length x = 13 \<and> startsWith x ''978''")
      (simp_all add: convertISBN13ToISBN10_13 convertISBN13ToISBN10_None)
  have d: "\<exists>d. convertISBN13ToISBN10 x = Some (take 9 (drop 3 x) @ d) \<and>
           (d = ''NaN'' \<or> d = ''X'' \<or> (\<exists>c. d = [c] \<and> is_digit c))"
    if "length x = 13 \<and> startsWith x ''978''"
    using that checkChar10_string [of "take 9 (drop 3 x)"]
    by (simp add: convertISBN13ToISBN10_13)
  from a b c d show ?thesis by blast
qed

theorem conversions_total_witness:
  "convertISBN10ToISBN13 ''abc'' = None \<and>
   convertISBN10ToISBN13 ''abcdefghij'' = Some ''978abcdefghiNaN'' \<and>
   convertISBN13ToISBN10 ''abcdefghij'' = None \<and>
   convertISBN13ToISBN10 ''978abcdefghij'' = Some ''abcdefghiNaN'' \<and>
   convertISBN13ToISBN10 ''9780156013987'' = Some ''0156013983''"
proof -
  have e: "convertISBN10ToISBN13 ''abcdefghij'' = Some ''978abcdefghiNaN''"
    by (simp add: isbn_eval)
  have f: "convertISBN13ToISBN10 ''978abcdefghij'' = Some ''abcdefghiNaN''"
    by (simp add: isbn_eval)
  have g: "convertISBN13ToISBN10 ''9780156013987'' = Some ''0156013983''"
    by (simp add: isbn_eval)
  from conversions_total [of "''abc''"] conversions_total [of "''abcdefghij''"]
    conversions_total [of "''978abcdefghij''"] e f g
  show ?thesis by (simp add: startsWith_def)
qed

section \<open>The round trip from ISBN-10\<close>

text \<open>
  Claim C6, as amended. The claim says that every 10-character string \<open>x\<close> that
  validation accepts satisfies \<open>toISBN10(toISBN13(x)) == x\<close>. No check digit is
  verified on input and \<open>toISBN13\<close> drops the 10th character, so the round trip
  returns the first nine characters of \<open>x\<close> followed by the recomputed ISBN-10 check
  character. Amended: for every 10-character string \<open>x\<close> that validation (of the
  client or of the server) accepts, \<open>toISBN10(toISBN13(x)) == x\<close> holds exactly when
  the 10th character of \<open>x\<close> is the ISBN-10 check character of its first nine.
\<close>

theorem roundtrip10_iff_check:
  assumes "length x = 10"
    and "BookAPIService_validateISBN x = Valid x \<or> ISBNServer_validateISBN x = Valid x"
  shows "roundtrip10 x = Some x \<longleftrightarrow> isbn10_checkChar (take 9 x) = [x ! 9]"
proof (cases "list_all is_digit (take 9 x)")
  case True
  from split_last10 [OF assms(1)] have x: "x = take 9 x @ [x ! 9]" .
  have "roundtrip10 x = Some x \<longleftrightarrow> take 9 x @ isbn10_checkChar (take 9 x) = take 9 x @ [x ! 9]"
    using roundtrip10_digits [OF assms(1) True] x by simp
  then show ?thesis by simp
next
  case False
  from roundtrip10_nondigit [OF assms(1) False] show ?thesis by simp
qed

theorem roundtrip10_iff_check_witness:
  "length ''0156013983'' = 10 \<and>
   BookAPIService_validateISBN ''0156013983'' = Valid ''0156013983'' \<and>
   isbn10_checkChar (take 9 ''0156013983'') = [''0156013983'' ! 9] \<and>
   roundtrip10 ''0156013983'' = Some ''0156013983''"
proof -
  have a: "length ''0156013983'' = 10" by simp
  have b: "BookAPIService_validateISBN ''0156013983'' = Valid ''0156013983''"
    by (simp add: BookAPIService_validateISBN_def matches_isbn10_def isbn_eval)
  have c: "isbn10_checkChar (take 9 ''0156013983'') = [''0156013983'' ! 9]"
    by (simp add: isbn_eval)
  from roundtrip10_iff_check [OF a disjI1 [OF b]] a b c show ?thesis by simp
qed

text \<open>
  The claim as stated fails at "0156013987", the example of the specification: both
  validators accept it, it converts to "9780156013987", and the way back gives
  "0156013983".
\<close>

theorem roundtrip10_counterexample:
  "BookAPIService_validateISBN ''0156013987'' = Valid ''0156013987'' \<and>
   ISBNServer_validateISBN ''0156013987'' = Valid ''0156013987'' \<and>
   convertISBN10ToISBN13 ''0156013987'' = Some ''9780156013987'' \<and>
   roundtrip10 ''0156013987'' = Some ''0156013983'' \<and>
   roundtrip10 ''0156013987'' \<noteq> Some ''0156013987''"
  by (simp add: roundtrip10_def BookAPIService_validateISBN_def ISBNServer_validateISBN_def
      matches_isbn10_def isbn_eval)

section \<open>The variants of an ISBN-13\<close>


subsection \<open>Variants in closed form\<close>

lemma checkChar10_length:
  "length (isbn10_checkChar p) = 1 \<or> length (isbn10_checkChar p) = 3"
  using checkChar10_string [of p] by auto

lemma checkDigit13_length:
  "length (num_to_string (isbn13_checkDigit p)) = 1 \<or>
   length (num_to_string (isbn13_checkDigit p)) = 3"
  using checkDigit13_string [of p] by auto

lemma client_variants_13:
  assumes "length (cleanISBN raw) = 13" and "startsWith (cleanISBN raw) ''978''"
  shows "BookDatabase_getISBNVariants raw =
           [cleanISBN raw,
            take 9 (drop 3 (cleanISBN raw)) @ isbn10_checkChar (take 9 (drop 3 (cleanISBN raw)))]"
proof -
  let ?c = "cleanISBN raw"
  let ?t = "take 9 (drop 3 ?c) @ isbn10_checkChar (take 9 (drop 3 ?c))"
  have conv: "convertISBN13ToISBN10 ?c = Some ?t"
    using assms by (rule convertISBN13ToISBN10_13)
  have "length ?t = 10 \<or> length ?t = 12"
    using checkChar10_length [of "take 9 (drop 3 ?c)"] assms(1) by auto
  then have "length ?t \<noteq> length ?c" using assms(1) by auto
  then have "?t \<noteq> ?c" by metis
  moreover have "?t \<noteq> []" using assms(1) by auto
  ultimately show ?thesis
    using assms conv by (simp add: BookDatabase_getISBNVariants_def set_add_def Let_def)
qed

lemma client_variants_10:
  assumes "length (cleanISBN raw) = 10"
  shows "BookDatabase_getISBNVariants raw = [cleanISBN raw, BookDatabase_normalizeISBN raw]"
    and "BookDatabase_normalizeISBN raw \<noteq> cleanISBN raw"
proof -
  let ?c = "cleanISBN raw"
  let ?n = "''978'' @ take 9 ?c @ num_to_string (isbn13_checkDigit (''978'' @ take 9 ?c))"
  have conv: "convertISBN10ToISBN13 ?c = Some ?n"
    using assms by (rule convertISBN10ToISBN13_10)
  have n: "BookDatabase_normalizeISBN raw = ?n"
    using assms by (simp add: normalize_agree server_normalize_10)
  have "length ?n = 13 \<or> length ?n = 15"
    using checkDigit13_length [of "''978'' @ take 9 ?c"] assms by auto
  then have "length ?n \<noteq> length ?c" using assms by auto
  then have ne: "?n \<noteq> ?c" by metis
  then show "BookDatabase_normalizeISBN raw \<noteq> cleanISBN raw" using n by simp
  show "BookDatabase_getISBNVariants raw = [cleanISBN raw, BookDatabase_normalizeISBN raw]"
    using assms conv ne n
    by (simp add: BookDatabase_getISBNVariants_def set_add_def Let_def)
qed

lemma client_variants_other:
  assumes "length (cleanISBN raw) \<noteq> 10"
    and "\<not> (length (cleanISBN raw) = 13 \<and> startsWith (cleanISBN raw) ''978'')"
  shows "BookDatabase_getISBNVariants raw = [cleanISBN raw]"
  using assms by (auto simp: BookDatabase_getISBNVariants_def Let_def)

lemma server_variants_13:
  assumes "length (cleanISBN raw) = 13" and "startsWith (cleanISBN raw) ''978''"
  shows "ISBNServer_getISBNVariants raw = [cleanISBN raw, take 9 (drop 3 (cleanISBN raw))]"
proof -
  have "drop 3 (take 12 (cleanISBN raw)) = take 9 (drop 3 (cleanISBN raw))"
    by (simp add: drop_take)
  then show ?thesis
    using assms by (simp add: ISBNServer_getISBNVariants_def substring_def Let_def)
qed

text \<open>Where an identifier has two variants, neither is a name inherited from \<open>Object.prototype\<close>.\<close>

lemma inherited_name_shape:
  "k \<in> set Object_prototype_names \<Longrightarrow>
   length k \<noteq> 10 \<and> length k \<noteq> 12 \<and> length k \<noteq> 15 \<and> \<not> startsWith k ''978''"
  by (auto simp: Object_prototype_names_def startsWith_def)

lemma two_variants_not_inherited:
  assumes "BookDatabase_getISBNVariants raw \<noteq> [cleanISBN raw]"
  shows "list_all (\<lambda>v. v \<notin> set Object_prototype_names) (BookDatabase_getISBNVariants raw)"
proof (cases "length (cleanISBN raw) = 10")
  case True
  let ?c = "cleanISBN raw"
  let ?n = "''978'' @ take 9 ?c @ num_to_string (isbn13_checkDigit (''978'' @ take 9 ?c))"
  have n: "BookDatabase_normalizeISBN raw = ?n"
    using True by (simp add: normalize_agree server_normalize_10)
  have "startsWith ?n ''978''" by (simp add: startsWith_def)
  then have "?n \<notin> set Object_prototype_names" using inherited_name_shape [of ?n] by blast
  moreover have "?c \<notin> set Object_prototype_names"
    using True inherited_name_shape [of ?c] by blast
  ultimately show ?thesis using client_variants_10(1) [OF True] n by simp
next
  case False
  let ?c = "cleanISBN raw"
  let ?t = "take 9 (drop 3 ?c) @ isbn10_checkChar (take 9 (drop 3 ?c))"
  from False assms have c: "length ?c = 13" "startsWith ?c ''978''"
    using client_variants_other [of raw] by blast+
  have "length ?t = 10 \<or> length ?t = 12"
    using checkChar10_length [of "take 9 (drop 3 ?c)"] c(1) by auto
  then have "?t \<notin> set Object_prototype_names" using inherited_name_shape [of ?t] by blast
  moreover have "?c \<notin> set Object_prototype_names"
    using c(2) inherited_name_shape [of ?c] by blast
  ultimately show ?thesis using client_variants_13 [OF c] by simp
qed

text \<open>The client lists the derived ISBN-10; the server never does.\<close>

lemma client_variants_has_isbn10:
  assumes "length (cleanISBN raw) = 13" and "startsWith (cleanISBN raw) ''978''"
  shows "\<exists>isbn10. convertISBN13ToISBN10 (cleanISBN raw) = Some isbn10 \<and>
           isbn10 \<in> set (BookDatabase_getISBNVariants raw)"
  using assms by (simp add: client_variants_13 convertISBN13ToISBN10_13)

lemma server_variants_lacks_isbn10:
  assumes "length (cleanISBN raw) = 13" and "startsWith (cleanISBN raw) ''978''"
    and "convertISBN13ToISBN10 (cleanISBN raw) = Some isbn10"
  shows "isbn10 \<notin> set (ISBNServer_getISBNVariants raw)"
proof -
  let ?p = "take 9 (drop 3 (cleanISBN raw))"
  have t: "isbn10 = ?p @ isbn10_checkChar ?p"
    using assms by (simp add: convertISBN13ToISBN10_13)
  have "length isbn10 = 10 \<or> length isbn10 = 12"
    using checkChar10_length [of ?p] assms(1) t by auto
  then have "length isbn10 \<noteq> length (cleanISBN raw)" "length isbn10 \<noteq> length ?p"
    using assms(1) by auto
  then have "isbn10 \<noteq> cleanISBN raw" "isbn10 \<noteq> ?p" by metis+
  then show ?thesis using assms(1,2) by (simp add: server_variants_13)
qed

text \<open>
  Claim C1. For every input whose cleaned form has 13 characters and starts with "978",
  the variants contain, next to the cleaned input, the derived ISBN-10: the nine
  characters at positions 3..12 followed by the recomputed ISBN-10 check character.
  The client does so (\<open>client_variants_has_isbn10\<close>). The server pushes the nine
  characters alone, without a check character, so its variants never contain the
  derived ISBN-10 (\<open>server_variants_lacks_isbn10\<close>); the theorem evaluates both on
  "9780156013987", whose ISBN-10 is "0156013983".
\<close>

theorem server_variants_isbn13:
  "ISBNServer_getISBNVariants ''9780156013987'' = [''9780156013987'', ''015601398''] \<and>
   BookDatabase_getISBNVariants ''9780156013987'' = [''9780156013987'', ''0156013983'']"
proof -
  have c: "cleanISBN ''9780156013987'' = ''9780156013987''" by (simp add: isbn_eval)
  have "isbn10_checkChar ''015601398'' = ''3''" by (simp add: isbn_eval)
  then show ?thesis
    using client_variants_13 [of "''9780156013987''"] server_variants_13 [of "''9780156013987''"]
    by (simp add: c startsWith_def)
qed

section \<open>The sentinel\<close>


lemma sentinel_normalize:
  "cleanISBN raw = sentinel \<Longrightarrow>
   BookDatabase_normalizeISBN raw = sentinel \<and> ISBNServer_normalizeISBN raw = sentinel"
  by (simp add: BookDatabase_normalizeISBN_def ISBNServer_normalizeISBN_def)

lemma sentinel_client_valid:
  "cleanISBN raw = sentinel \<Longrightarrow> BookAPIService_validateISBN raw = Valid sentinel"
  by (simp add: BookAPIService_validateISBN_def)

lemma sentinel_server_invalid:
  "cleanISBN raw = sentinel \<Longrightarrow> ISBNServer_validateISBN raw = Invalid InvalidPrefix"
  by (simp add: ISBNServer_validateISBN_def sentinel_def startsWith_def)

text \<open>
  Claim C2. For every raw input whose cleaned form is the sentinel "6666666666666",
  validation answers valid and normalisation returns the sentinel unchanged, in the
  client and in the server. Normalisation does so in both, and the validator of the
  client does (\<open>sentinel_normalize\<close>, \<open>sentinel_client_valid\<close>). The validator of the
  server has no branch for the sentinel: it has 13 characters and starts with neither
  "978" nor "979", so the server rejects it with the prefix error.
\<close>

theorem server_rejects_sentinel:
  "ISBNServer_validateISBN ''6666666666666'' = Invalid InvalidPrefix \<and>
   BookAPIService_validateISBN ''6666666666666'' = Valid ''6666666666666'' \<and>
   BookDatabase_normalizeISBN ''6666666666666'' = ''6666666666666'' \<and>
   ISBNServer_normalizeISBN ''6666666666666'' = ''6666666666666''"
proof -
  have c: "cleanISBN ''6666666666666'' = sentinel" by (simp add: isbn_eval)
  from sentinel_normalize [OF c] sentinel_client_valid [OF c] sentinel_server_invalid [OF c]
  show ?thesis by (simp add: sentinel_def)
qed

section \<open>Reading the store\<close>

lemma js_get_own: "k \<notin> set Object_prototype_names \<Longrightarrow> js_get data k = data k"
  by (simp add: js_get_def split: option.splits)

lemma js_get_Some: "data k = Some b \<Longrightarrow> js_get data k = Some b"
  by (simp add: js_get_def)

lemma inherited_name_979: "k \<in> set Object_prototype_names \<Longrightarrow> \<not> startsWith k ''979''"
  by (auto simp: Object_prototype_names_def startsWith_def)

lemma validated_not_inherited:
  assumes "ISBNServer_validateISBN isbn = Valid v"
  shows "v \<notin> set Object_prototype_names"
proof
  assume k: "v \<in> set Object_prototype_names"
  from assms have v: "v = cleanISBN isbn"
    and shape: "length v = 10 \<or> startsWith v ''978'' \<or> startsWith v ''979''"
    by (auto simp: ISBNServer_validateISBN_def Let_def split: if_splits)
  from shape inherited_name_shape [OF k] inherited_name_979 [OF k] show False by blast
qed

lemma js_get_validated:
  "ISBNServer_validateISBN isbn = Valid v \<Longrightarrow> js_get books v = books v"
  by (rule js_get_own) (rule validated_not_inherited)

lemma store_put_plain: "k \<notin> set Object_prototype_names \<Longrightarrow> store_put data k b = data(k \<mapsto> b)"
  by (auto simp: store_put_def Object_prototype_names_def)

section \<open>Deleting by ISBN-10\<close>

subsection \<open>Evaluation on the identifiers of the examples\<close>

lemma clean_9780156013987: "cleanISBN ''9780156013987'' = ''9780156013987''"
  by (simp add: isbn_eval)

lemma clean_0156013987: "cleanISBN ''0156013987'' = ''0156013987''"
  by (simp add: isbn_eval)

lemma normalize_0156013987: "BookDatabase_normalizeISBN ''0156013987'' = ''9780156013987''"
  by (simp add: isbn_eval)

lemma normalize_9780156013987: "BookDatabase_normalizeISBN ''9780156013987'' = ''9780156013987''"
  by (simp add: isbn_eval)

lemma variants_9780156013987:
  "BookDatabase_getISBNVariants ''9780156013987'' = [''9780156013987'', ''0156013983'']"
proof -
  have "isbn10_checkChar ''015601398'' = ''3''" by (simp add: isbn_eval)
  then show ?thesis
    using client_variants_13 [of "''9780156013987''"]
    by (simp add: clean_9780156013987 startsWith_def)
qed

lemma variants_0156013987:
  "BookDatabase_getISBNVariants ''0156013987'' = [''0156013987'', ''9780156013987'']"
  using client_variants_10(1) [of "''0156013987''"]
  by (simp add: clean_0156013987 normalize_0156013987)

lemma server_validate_0156013987: "ISBNServer_validateISBN ''0156013987'' = Valid ''0156013987''"
  by (simp add: ISBNServer_validateISBN_def clean_0156013987)


lemma plain_keys:
  "''9780156013987'' \<notin> set Object_prototype_names"
  "''0156013987'' \<notin> set Object_prototype_names"
  "''0156013983'' \<notin> set Object_prototype_names"
  "''6666666666666'' \<notin> set Object_prototype_names"
  by (simp_all add: Object_prototype_names_def)

subsection \<open>Deleting\<close>

lemma client_delete_by_isbn10:
  assumes "length (cleanISBN raw) = 10" and "data (BookDatabase_normalizeISBN raw) = Some b"
  shows "fst (BookDatabase_deleteBook data raw saved) (BookDatabase_normalizeISBN raw) = None \<and>
         snd (BookDatabase_deleteBook data raw saved) = (if saved then Inr True else Inl SaveFailed)"
proof -
  let ?c = "cleanISBN raw" and ?n = "BookDatabase_normalizeISBN raw"
  have v: "BookDatabase_getISBNVariants raw = [?c, ?n]" and ne: "?n \<noteq> ?c"
    using client_variants_10 [OF assms(1)] by simp_all
  have n: "js_get (data(?c := None)) ?n = Some b" "js_get data ?n = Some b"
    using assms(2) ne by (simp_all add: js_get_Some)
  show ?thesis
  proof (cases "js_get data ?c")
    case None
    then show ?thesis using n by (simp add: BookDatabase_deleteBook_def v)
  next
    case (Some r)
    then show ?thesis using n ne by (simp add: BookDatabase_deleteBook_def v)
  qed
qed

lemma pg_delete_by_isbn10:
  assumes "length (cleanISBN raw) = 10" and "books (ISBNServer_normalizeISBN raw) = Some b"
  shows "ISBNServer_pg_deleteBook books raw True =
           (books(ISBNServer_normalizeISBN raw := None), Success ())"
proof -
  have "ISBNServer_validateISBN raw = Valid (cleanISBN raw)"
    using assms(1) by (simp add: ISBNServer_validateISBN_def)
  moreover have "ISBNServer_normalizeISBN (cleanISBN raw) = ISBNServer_normalizeISBN raw"
    by (simp add: ISBNServer_normalizeISBN_def cleanISBN_idem)
  ultimately show ?thesis using assms(2) by (simp add: ISBNServer_pg_deleteBook_def)
qed

lemma file_delete_by_isbn10:
  assumes "length (cleanISBN raw) = 10" and "books (cleanISBN raw) = None"
  shows "ISBNServer_deleteBook books raw saved = (books, Status404)"
proof -
  have v: "ISBNServer_validateISBN raw = Valid (cleanISBN raw)"
    using assms(1) by (simp add: ISBNServer_validateISBN_def)
  from js_get_validated [OF v] assms(2) have "js_get books (cleanISBN raw) = None" by simp
  then show ?thesis by (simp add: ISBNServer_deleteBook_def v)
qed

text \<open>
  Claim C3. For every store that holds a record under the ISBN-13 key of a book, deleting
  with the ISBN-10 form of that book removes the record and reports that a record
  existed, in the client store and in the server store. The client probes every variant
  (\<open>client_delete_by_isbn10\<close>) and the table-backed server deletes under the normalised
  identifier (\<open>pg_delete_by_isbn10\<close>). The file-backed server looks the cleaned request
  identifier up as it is: with the record under "9780156013987" and the request
  "0156013987" it answers 404 and leaves the record in the store
  (\<open>file_delete_by_isbn10\<close> for every such store).
\<close>

theorem file_server_delete_isbn10:
  "ISBNServer_normalizeISBN ''0156013987'' = ''9780156013987'' \<and>
   ISBNServer_deleteBook (Map.empty(''9780156013987'' \<mapsto> b)) ''0156013987'' saved =
     (Map.empty(''9780156013987'' \<mapsto> b), Status404) \<and>
   fst (BookDatabase_deleteBook (Map.empty(''9780156013987'' \<mapsto> b)) ''0156013987'' True) =
     Map.empty \<and>
   snd (BookDatabase_deleteBook (Map.empty(''9780156013987'' \<mapsto> b)) ''0156013987'' True) =
     Inr True \<and>
   ISBNServer_pg_deleteBook (Map.empty(''9780156013987'' \<mapsto> b)) ''0156013987'' True =
     (Map.empty, Success ())"
proof -
  have n: "ISBNServer_normalizeISBN ''0156013987'' = ''9780156013987''"
    using normalize_0156013987 by (simp add: normalize_agree)
  have a: "ISBNServer_deleteBook (Map.empty(''9780156013987'' \<mapsto> b)) ''0156013987'' saved =
     (Map.empty(''9780156013987'' \<mapsto> b), Status404)"
    by (rule file_delete_by_isbn10) (simp_all add: clean_0156013987)
  have c: "BookDatabase_deleteBook (Map.empty(''9780156013987'' \<mapsto> b)) ''0156013987'' True =
     (Map.empty, Inr True)"
    by (simp add: BookDatabase_deleteBook_def variants_0156013987 js_get_own plain_keys)
  have p: "ISBNServer_pg_deleteBook (Map.empty(''9780156013987'' \<mapsto> b)) ''0156013987'' True =
     (Map.empty, Success ())"
    by (simp add: ISBNServer_pg_deleteBook_def server_validate_0156013987 n)
  from n a c p show ?thesis by simp
qed

section \<open>Upsert moves a record to its canonical key\<close>

subsection \<open>Looking a record up\<close>

lemma findBook_loop_found:
  "findBook_loop data vs = Some existing \<Longrightarrow>
   \<exists>k r. k \<in> set vs \<and> js_get data k = Some r \<and> existing = r(''foundWithISBN'' \<mapsto> JStr k)"
  by (induction vs) (auto split: option.splits)


lemma findBook_found:
  assumes "BookDatabase_findBook data isbn = Some existing"
  shows "\<exists>k r. k \<in> set (BookDatabase_getISBNVariants isbn) \<and> js_get data k = Some r \<and>
           existing = r(''foundWithISBN'' \<mapsto> JStr k) \<and> key_of (existing ''foundWithISBN'') = k"
  using findBook_loop_found [OF assms [unfolded BookDatabase_findBook_def]] by auto

lemma client_normalize_other:
  "length (cleanISBN raw) \<noteq> 10 \<Longrightarrow> BookDatabase_normalizeISBN raw = cleanISBN raw"
  by (simp add: normalize_agree server_normalize_other)

text \<open>
  A record found under a key that is not the canonical one: the variants are that key
  and the canonical key, neither is an inherited name, and the record is stored under
  that key.
\<close>

lemma found_elsewhere:
  assumes found: "BookDatabase_findBook data isbn = Some existing"
    and neq: "key_of (existing ''foundWithISBN'') \<noteq> BookDatabase_normalizeISBN isbn"
  shows "set (BookDatabase_getISBNVariants isbn) =
           {key_of (existing ''foundWithISBN''), BookDatabase_normalizeISBN isbn}"
    and "BookDatabase_normalizeISBN isbn \<notin> set Object_prototype_names"
    and "\<exists>r. data (key_of (existing ''foundWithISBN'')) = Some r \<and>
              existing = r(''foundWithISBN'' \<mapsto> JStr (key_of (existing ''foundWithISBN'')))"
proof -
  let ?c = "cleanISBN isbn" and ?n = "BookDatabase_normalizeISBN isbn"
  let ?k = "key_of (existing ''foundWithISBN'')"
  from findBook_found [OF found] obtain r where
    k: "?k \<in> set (BookDatabase_getISBNVariants isbn)" and r: "js_get data ?k = Some r"
    and e: "existing = r(''foundWithISBN'' \<mapsto> JStr ?k)" by auto
  have vs: "set (BookDatabase_getISBNVariants isbn) = {?k, ?n}"
  proof (cases "length ?c = 10")
    case True
    from client_variants_10(1) [OF True] k neq show ?thesis by auto
  next
    case False
    then have n: "?n = ?c" by (rule client_normalize_other)
    show ?thesis
    proof (cases "length ?c = 13 \<and> startsWith ?c ''978''")
      case True
      then have "BookDatabase_getISBNVariants isbn =
           [?c, take 9 (drop 3 ?c) @ isbn10_checkChar (take 9 (drop 3 ?c))]"
        by (simp add: client_variants_13)
      with k neq n show ?thesis by auto
    next
      case False
      with \<open>length ?c \<noteq> 10\<close> have "BookDatabase_getISBNVariants isbn = [?c]"
        by (rule client_variants_other)
      with k neq n show ?thesis by simp
    qed
  qed
  show "set (BookDatabase_getISBNVariants isbn) = {?k, ?n}" by (rule vs)
  have "BookDatabase_getISBNVariants isbn \<noteq> [?c]"
  proof
    assume "BookDatabase_getISBNVariants isbn = [?c]"
    with vs have "?k = ?n" by auto
    with neq show False by simp
  qed
  then have plain: "list_all (\<lambda>v. v \<notin> set Object_prototype_names) (BookDatabase_getISBNVariants isbn)"
    by (rule two_variants_not_inherited)
  with vs show "?n \<notin> set Object_prototype_names" by (auto simp: list_all_iff)
  from plain vs have "?k \<notin> set Object_prototype_names" by (auto simp: list_all_iff)
  then have "data ?k = Some r" using r by (simp add: js_get_own)
  with e show "\<exists>r. data ?k = Some r \<and> existing = r(''foundWithISBN'' \<mapsto> JStr ?k)" by blast
qed

text \<open>
  Claim C4, as amended. The claim says that an upsert whose lookup finds the existing
  record under a key other than the canonical key leaves the old key absent and the
  merged record only under the canonical key, so that no two keys of the store ever
  hold records for equivalent identifiers. The upsert removes the one key under which
  the lookup found the record and touches no other key. Amended: for every store and
  every upsert (\<open>addBook\<close>, \<open>updateBookField\<close>) whose lookup finds the existing record
  under a key other than the canonical key of the identifier, after the upsert the old
  key is absent, the merged record is stored under the canonical key, and every other
  key of the store holds what it held before. The identifier has exactly these two
  variants, so of its variants only the canonical key holds a record; a record under
  any other key, also one equivalent to the canonical key, stays where it is. In
  particular, \<open>addBook\<close> of a title under "9780156013987" on the empty store and then
  of a page count under "0156013987" leaves exactly one record, under
  "9780156013987", with both fields.
\<close>

theorem upsert_moves_record:
  assumes found: "BookDatabase_findBook data isbn = Some existing"
    and neq: "key_of (existing ''foundWithISBN'') \<noteq> BookDatabase_normalizeISBN isbn"
  shows
    "fst (BookDatabase_addBook data isbn bookInfo now saved)
       (key_of (existing ''foundWithISBN'')) = None \<and>
     fst (BookDatabase_addBook data isbn bookInfo now saved) (BookDatabase_normalizeISBN isbn) =
       Some ((existing ++ bookInfo)(''lastUpdated'' \<mapsto> JStr now)) \<and>
     (k \<noteq> key_of (existing ''foundWithISBN'') \<and> k \<noteq> BookDatabase_normalizeISBN isbn \<longrightarrow>
        fst (BookDatabase_addBook data isbn bookInfo now saved) k = data k) \<and>
     set (BookDatabase_getISBNVariants isbn) =
       {key_of (existing ''foundWithISBN''), BookDatabase_normalizeISBN isbn} \<and>
     list_all (\<lambda>v. v = BookDatabase_normalizeISBN isbn \<or>
                fst (BookDatabase_addBook data isbn bookInfo now saved) v = None)
       (BookDatabase_getISBNVariants isbn) \<and>
     fst (BookDatabase_updateBookField data isbn field val now saved)
       (key_of (existing ''foundWithISBN'')) = None \<and>
     fst (BookDatabase_updateBookField data isbn field val now saved)
       (BookDatabase_normalizeISBN isbn) =
       map_option (\<lambda>r. (set_field r field val)(''lastUpdated'' \<mapsto> JStr now))
         (data (key_of (existing ''foundWithISBN''))) \<and>
     data (key_of (existing ''foundWithISBN'')) \<noteq> None \<and>
     (k \<noteq> key_of (existing ''foundWithISBN'') \<and> k \<noteq> BookDatabase_normalizeISBN isbn \<longrightarrow>
        fst (BookDatabase_updateBookField data isbn field val now saved) k = data k) \<and>
     list_all (\<lambda>v. v = BookDatabase_normalizeISBN isbn \<or>
                fst (BookDatabase_updateBookField data isbn field val now saved) v = None)
       (BookDatabase_getISBNVariants isbn) \<and>
     dom (fst (BookDatabase_addBook Map.empty ''9780156013987''
                [''title'' \<mapsto> JStr ''Le Petit Prince''] t1 True)) = {''9780156013987''} \<and>
     dom (fst (BookDatabase_addBook
                (fst (BookDatabase_addBook Map.empty ''9780156013987''
                        [''title'' \<mapsto> JStr ''Le Petit Prince''] t1 True))
                ''0156013987'' [''pageCount'' \<mapsto> JNum 96] t2 True)) = {''9780156013987''} \<and>
     stored_field
       (fst (BookDatabase_addBook
                (fst (BookDatabase_addBook Map.empty ''9780156013987''
                        [''title'' \<mapsto> JStr ''Le Petit Prince''] t1 True))
                ''0156013987'' [''pageCount'' \<mapsto> JNum 96] t2 True))
       ''9780156013987'' ''title'' = Some (JStr ''Le Petit Prince'') \<and>
     stored_field
       (fst (BookDatabase_addBook
                (fst (BookDatabase_addBook Map.empty ''9780156013987''
                        [''title'' \<mapsto> JStr ''Le Petit Prince''] t1 True))
                ''0156013987'' [''pageCount'' \<mapsto> JNum 96] t2 True))
       ''9780156013987'' ''pageCount'' = Some (JNum 96)"
proof -
  let ?n = "BookDatabase_normalizeISBN isbn"
  let ?k = "key_of (existing ''foundWithISBN'')"
  from found_elsewhere [OF found neq] obtain r where
    vs: "set (BookDatabase_getISBNVariants isbn) = {?k, ?n}"
    and plain: "?n \<notin> set Object_prototype_names"
    and r: "data ?k = Some r" by blast
  have add: "fst (BookDatabase_addBook data isbn bookInfo now saved) =
      (data(?k := None))(?n \<mapsto> (existing ++ bookInfo)(''lastUpdated'' \<mapsto> JStr now))"
    using found neq by (simp add: BookDatabase_addBook_def Let_def store_put_plain [OF plain])
  have upd: "fst (BookDatabase_updateBookField data isbn field val now saved) =
      (data(?k := None))(?n \<mapsto> (set_field r field val)(''lastUpdated'' \<mapsto> JStr now))"
    using found neq r
    by (auto simp: BookDatabase_updateBookField_def Let_def store_put_plain [OF plain] js_get_Some)
  have a1: "fst (BookDatabase_addBook data isbn bookInfo now saved) ?k = None"
    using neq by (simp add: add)
  have a2: "fst (BookDatabase_addBook data isbn bookInfo now saved) ?n =
      Some ((existing ++ bookInfo)(''lastUpdated'' \<mapsto> JStr now))"
    by (simp add: add)
  have a3: "k \<noteq> ?k \<and> k \<noteq> ?n \<longrightarrow>
      fst (BookDatabase_addBook data isbn bookInfo now saved) k = data k"
    by (simp add: add)
  have a4: "list_all (\<lambda>v. v = ?n \<or> fst (BookDatabase_addBook data isbn bookInfo now saved) v = None)
      (BookDatabase_getISBNVariants isbn)"
    using vs neq by (auto simp: list_all_iff add)
  have u1: "fst (BookDatabase_updateBookField data isbn field val now saved) ?k = None"
    using neq by (simp add: upd)
  have u2: "fst (BookDatabase_updateBookField data isbn field val now saved) ?n =
      map_option (\<lambda>r. (set_field r field val)(''lastUpdated'' \<mapsto> JStr now)) (data ?k)"
    by (simp add: upd r)
  have u3: "k \<noteq> ?k \<and> k \<noteq> ?n \<longrightarrow>
      fst (BookDatabase_updateBookField data isbn field val now saved) k = data k"
    by (simp add: upd)
  have u4: "list_all (\<lambda>v. v = ?n \<or>
        fst (BookDatabase_updateBookField data isbn field val now saved) v = None)
      (BookDatabase_getISBNVariants isbn)"
    using vs neq by (auto simp: list_all_iff upd)
  have s1: "fst (BookDatabase_addBook Map.empty ''9780156013987''
                [''title'' \<mapsto> JStr ''Le Petit Prince''] t1 True) =
      [''9780156013987'' \<mapsto>
         [''title'' \<mapsto> JStr ''Le Petit Prince'', ''lastUpdated'' \<mapsto> JStr t1,
          ''source'' \<mapsto> JStr ''unknown'']]"
    by (simp add: BookDatabase_addBook_def BookDatabase_findBook_def variants_9780156013987
        normalize_9780156013987 source_or_unknown_def Let_def js_get_own plain_keys
        store_put_plain)
  have s2: "fst (BookDatabase_addBook
        [''9780156013987'' \<mapsto>
         [''title'' \<mapsto> JStr ''Le Petit Prince'', ''lastUpdated'' \<mapsto> JStr t1,
          ''source'' \<mapsto> JStr ''unknown'']]
        ''0156013987'' [''pageCount'' \<mapsto> JNum 96] t2 True) =
      [''9780156013987'' \<mapsto>
         ([''title'' \<mapsto> JStr ''Le Petit Prince'', ''lastUpdated'' \<mapsto> JStr t1,
          ''source'' \<mapsto> JStr ''unknown'', ''foundWithISBN'' \<mapsto> JStr ''9780156013987''] ++
          [''pageCount'' \<mapsto> JNum 96])(''lastUpdated'' \<mapsto> JStr t2)]"
    by (simp add: BookDatabase_addBook_def BookDatabase_findBook_def variants_0156013987
        normalize_0156013987 Let_def js_get_own plain_keys store_put_plain)
  have s3: "dom (fst (BookDatabase_addBook Map.empty ''9780156013987''
                [''title'' \<mapsto> JStr ''Le Petit Prince''] t1 True)) = {''9780156013987''}"
    by (simp add: s1)
  have s4: "dom (fst (BookDatabase_addBook
                (fst (BookDatabase_addBook Map.empty ''9780156013987''
                        [''title'' \<mapsto> JStr ''Le Petit Prince''] t1 True))
                ''0156013987'' [''pageCount'' \<mapsto> JNum 96] t2 True)) = {''9780156013987''}"
    by (simp add: s1 s2)
  have s5: "stored_field
       (fst (BookDatabase_addBook
                (fst (BookDatabase_addBook Map.empty ''9780156013987''
                        [''title'' \<mapsto> JStr ''Le Petit Prince''] t1 True))
                ''0156013987'' [''pageCount'' \<mapsto> JNum 96] t2 True))
       ''9780156013987'' ''title'' = Some (JStr ''Le Petit Prince'')"
    by (simp add: s1 s2 stored_field_def)
  have s6: "stored_field
       (fst (BookDatabase_addBook
                (fst (BookDatabase_addBook Map.empty ''9780156013987''
                        [''title'' \<mapsto> JStr ''Le Petit Prince''] t1 True))
                ''0156013987'' [''pageCount'' \<mapsto> JNum 96] t2 True))
       ''9780156013987'' ''pageCount'' = Some (JNum 96)"
    by (simp add: s1 s2 stored_field_def)
  have r': "data ?k \<noteq> None" using r by simp
  from a1 a2 a3 vs a4 u1 u2 r' u3 u4 s3 s4 s5 s6 show ?thesis by (intro conjI)
qed

theorem upsert_moves_record_witness:
  "BookDatabase_findBook [''0156013983'' \<mapsto> [''title'' \<mapsto> JStr ''Le Petit Prince'']]
     ''9780156013987'' =
     Some [''title'' \<mapsto> JStr ''Le Petit Prince'', ''foundWithISBN'' \<mapsto> JStr ''0156013983''] \<and>
   key_of ([''title'' \<mapsto> JStr ''Le Petit Prince'', ''foundWithISBN'' \<mapsto> JStr ''0156013983'']
     ''foundWithISBN'') \<noteq> BookDatabase_normalizeISBN ''9780156013987'' \<and>
   fst (BookDatabase_addBook [''0156013983'' \<mapsto> [''title'' \<mapsto> JStr ''Le Petit Prince'']]
          ''9780156013987'' [''pageCount'' \<mapsto> JNum 96] ''2024-01-01'' True) ''0156013983'' = None \<and>
   stored_field
     (fst (BookDatabase_addBook [''0156013983'' \<mapsto> [''title'' \<mapsto> JStr ''Le Petit Prince'']]
          ''9780156013987'' [''pageCount'' \<mapsto> JNum 96] ''2024-01-01'' True))
     ''9780156013987'' ''title'' = Some (JStr ''Le Petit Prince'') \<and>
   fst (BookDatabase_updateBookField [''0156013983'' \<mapsto> [''title'' \<mapsto> JStr ''Le Petit Prince'']]
          ''9780156013987'' ''pageCount'' (JNum 96) ''2024-01-01'' True) ''0156013983'' = None"
proof -
  let ?D = "[''0156013983'' \<mapsto> [''title'' \<mapsto> JStr ''Le Petit Prince'']]"
  let ?E = "[''title'' \<mapsto> JStr ''Le Petit Prince'', ''foundWithISBN'' \<mapsto> JStr ''0156013983'']"
  have f: "BookDatabase_findBook ?D ''9780156013987'' = Some ?E"
    by (simp add: BookDatabase_findBook_def variants_9780156013987 js_get_own plain_keys)
  have n: "key_of (?E ''foundWithISBN'') \<noteq> BookDatabase_normalizeISBN ''9780156013987''"
    by (simp add: normalize_9780156013987)
  note w = upsert_moves_record [OF f n, where bookInfo = "[''pageCount'' \<mapsto> JNum 96]"
      and now = "''2024-01-01''" and saved = True and field = "''pageCount''" and val = "JNum 96"]
  have k: "key_of (?E ''foundWithISBN'') = ''0156013983''" by simp
  have a: "fst (BookDatabase_addBook ?D ''9780156013987'' [''pageCount'' \<mapsto> JNum 96]
      ''2024-01-01'' True) ''0156013983'' = None"
    using w [THEN conjunct1] by (simp only: k)
  have b: "fst (BookDatabase_addBook ?D ''9780156013987'' [''pageCount'' \<mapsto> JNum 96]
      ''2024-01-01'' True) ''9780156013987'' =
      Some ((?E ++ [''pageCount'' \<mapsto> JNum 96])(''lastUpdated'' \<mapsto> JStr ''2024-01-01''))"
    using w [THEN conjunct2, THEN conjunct1] by (simp only: normalize_9780156013987)
  have c: "fst (BookDatabase_updateBookField ?D ''9780156013987'' ''pageCount'' (JNum 96)
      ''2024-01-01'' True) ''0156013983'' = None"
    using w [THEN conjunct2, THEN conjunct2, THEN conjunct2, THEN conjunct2, THEN conjunct2,
        THEN conjunct1] by (simp only: k)
  have d: "stored_field (fst (BookDatabase_addBook ?D ''9780156013987'' [''pageCount'' \<mapsto> JNum 96]
      ''2024-01-01'' True)) ''9780156013987'' ''title'' = Some (JStr ''Le Petit Prince'')"
    by (simp add: stored_field_def b)
  from f n a d c show ?thesis by (intro conjI)
qed

text \<open>
  The claim as stated fails on a store that holds records under two ISBN-10 strings of
  the same book, "0156013987" and "0156013983". The upsert under "0156013987" finds
  the record under that key, which is not the canonical key, and moves it to
  "9780156013987"; the record under "0156013983", the ISBN-10 form of
  "9780156013987", stays. Two equivalent identifiers then hold records.
\<close>

theorem upsert_equivalent_keys_counterexample:
  "BookDatabase_findBook
     [''0156013987'' \<mapsto> [''title'' \<mapsto> JStr ''A''], ''0156013983'' \<mapsto> [''title'' \<mapsto> JStr ''B'']]
     ''0156013987'' =
     Some [''title'' \<mapsto> JStr ''A'', ''foundWithISBN'' \<mapsto> JStr ''0156013987''] \<and>
   BookDatabase_normalizeISBN ''0156013987'' = ''9780156013987'' \<and>
   convertISBN13ToISBN10 ''9780156013987'' = Some ''0156013983'' \<and>
   stored_field
     (fst (BookDatabase_addBook
        [''0156013987'' \<mapsto> [''title'' \<mapsto> JStr ''A''], ''0156013983'' \<mapsto> [''title'' \<mapsto> JStr ''B'']]
        ''0156013987'' [''pageCount'' \<mapsto> JNum 96] ''2024-01-01'' True))
     ''9780156013987'' ''title'' = Some (JStr ''A'') \<and>
   stored_field
     (fst (BookDatabase_addBook
        [''0156013987'' \<mapsto> [''title'' \<mapsto> JStr ''A''], ''0156013983'' \<mapsto> [''title'' \<mapsto> JStr ''B'']]
        ''0156013987'' [''pageCount'' \<mapsto> JNum 96] ''2024-01-01'' True))
     ''0156013983'' ''title'' = Some (JStr ''B'')"
proof -
  have c: "convertISBN13ToISBN10 ''9780156013987'' = Some ''0156013983''"
    by (simp add: isbn_eval)
  show ?thesis
    by (simp add: c stored_field_def BookDatabase_addBook_def BookDatabase_findBook_def
        variants_0156013987 normalize_0156013987 Let_def js_get_own plain_keys store_put_plain)
qed

section \<open>Merging an update into a record\<close>






end
